theory Spec2Isabelle
  imports Main "HOL-Library.Sublist"
begin

section \<open>The rule require-take-until-destroyed\<close>

text \<open>
  The development embeds \<^verbatim>\<open>lib/rules/require-take-until-destroyed.js\<close>: the two
  alias sets built by \<^verbatim>\<open>create\<close>, the \<^verbatim>\<open>ImportDeclaration\<close> visitor, the visitor for
  \<^verbatim>\<open>CallExpression[callee.property.name="subscribe"]\<close>, and the helpers
  \<^verbatim>\<open>findPipeCallBeforeSubscribe\<close>, \<^verbatim>\<open>checkForTakeOperatorsInPipe\<close> and
  \<^verbatim>\<open>checkForTakeUntilDestroyedInPipe\<close>.
\<close>

subsection \<open>Syntax tree nodes\<close>

text \<open>
  The rule reads its nodes by field name and guards most reads with a truthiness test, so
  a node is a bag of optional fields: only \<^verbatim>\<open>type\<close> is always there. A field that is
  \<^verbatim>\<open>undefined\<close> or \<^verbatim>\<open>null\<close> in JavaScript is \<open>None\<close> here. The fields the rule reads
  are kept, and \<^verbatim>\<open>computed\<close>, which the rule never reads: it tells \<^verbatim>\<open>a.b\<close> (false, also
  when absent) from \<^verbatim>\<open>a[b]\<close> (true). Names are ASCII strings.
\<close>

datatype node = Node
  (type: string)
  (name: "string option")
  (callee: "node option")
  (object: "node option")
  (property: "node option")
  (arguments: "node list option")
  (computed: bool)

text \<open>
  An import specifier: \<^verbatim>\<open>specifier.type\<close>, \<^verbatim>\<open>specifier.imported\<close> (absent on a default
  or namespace import, and without a \<^verbatim>\<open>name\<close> when the exported name is a string
  literal) and \<^verbatim>\<open>specifier.local.name\<close>, which every specifier kind carries.
\<close>

record import_specifier =
  spec_type :: string
  imported :: "node option"
  local_name :: string

text \<open>An import declaration: \<^verbatim>\<open>node.source.value\<close> and \<^verbatim>\<open>node.specifiers\<close>.\<close>

record import_declaration =
  source_value :: string
  specifiers :: "import_specifier list"

text \<open>Reading a property of \<^verbatim>\<open>undefined\<close> throws a \<^verbatim>\<open>TypeError\<close>.\<close>

datatype error = TypeError

subsection \<open>Strings and sets of JavaScript\<close>

text \<open>\<^verbatim>\<open>String.prototype.includes\<close>: the argument occurs as a contiguous run.\<close>

fun includes_str :: "string \<Rightarrow> string \<Rightarrow> bool" where
  "includes_str [] sub = (sub = [])"
| "includes_str (c # cs) sub = (prefix sub (c # cs) \<or> includes_str cs sub)"

text \<open>\<^verbatim>\<open>String.prototype.toLowerCase\<close> on ASCII names.\<close>

definition toLowerCase_char :: "char \<Rightarrow> char" where
  "toLowerCase_char c =
     (case map_of (zip ''ABCDEFGHIJKLMNOPQRSTUVWXYZ'' ''abcdefghijklmnopqrstuvwxyz'') c of
        None \<Rightarrow> c
      | Some l \<Rightarrow> l)"

definition toLowerCase :: "string \<Rightarrow> string" where
  "toLowerCase s = map toLowerCase_char s"

text \<open>
  \<^verbatim>\<open>Set.prototype.has\<close> on a set of strings, asked about a value that may be
  \<^verbatim>\<open>undefined\<close> (which no alias set holds).
\<close>

definition set_has :: "string set \<Rightarrow> string option \<Rightarrow> bool" where
  "set_has S x = (case x of None \<Rightarrow> False | Some n \<Rightarrow> n \<in> S)"

text \<open>
  \<^verbatim>\<open>Array.prototype.some\<close> with a callback that may throw: the elements are visited in
  order, the first \<^verbatim>\<open>true\<close> ends the visit, and so does the first exception.
\<close>

fun array_some :: "('a \<Rightarrow> error + bool) \<Rightarrow> 'a list \<Rightarrow> error + bool" where
  "array_some f [] = Inr False"
| "array_some f (x # xs) =
     (case f x of
        Inl e \<Rightarrow> Inl e
      | Inr True \<Rightarrow> Inr True
      | Inr False \<Rightarrow> array_some f xs)"

subsection \<open>The alias sets\<close>

record alias_state =
  takeUntilDestroyedAliases :: "string set"
  rxjsTakeOperatorAliases :: "string set"

definition rxjsTakeOperators :: "string set" where
  "rxjsTakeOperators = {''takeUntil'', ''takeWhile'', ''take'', ''takeLast''}"

text \<open>The state that \<^verbatim>\<open>create(context)\<close> builds, once for each file that is linted.\<close>

definition create :: alias_state where
  "create = \<lparr> takeUntilDestroyedAliases = {''takeUntilDestroyed''},
              rxjsTakeOperatorAliases = rxjsTakeOperators \<rparr>"

text \<open>The two \<^verbatim>\<open>forEach\<close> callbacks of the \<^verbatim>\<open>ImportDeclaration\<close> visitor.\<close>

definition add_destroy_alias :: "import_specifier \<Rightarrow> alias_state \<Rightarrow> alias_state" where
  "add_destroy_alias specifier st =
     (if spec_type specifier = ''ImportSpecifier'' \<and>
         (case imported specifier of
            None \<Rightarrow> False
          | Some i \<Rightarrow> name i = Some ''takeUntilDestroyed'')
      then st\<lparr> takeUntilDestroyedAliases :=
                 insert (local_name specifier) (takeUntilDestroyedAliases st) \<rparr>
      else st)"

definition add_take_alias :: "import_specifier \<Rightarrow> alias_state \<Rightarrow> alias_state" where
  "add_take_alias specifier st =
     (if spec_type specifier = ''ImportSpecifier'' \<and>
         (case imported specifier of
            None \<Rightarrow> False
          | Some i \<Rightarrow> set_has rxjsTakeOperators (name i))
      then st\<lparr> rxjsTakeOperatorAliases :=
                 insert (local_name specifier) (rxjsTakeOperatorAliases st) \<rparr>
      else st)"

definition ImportDeclaration :: "alias_state \<Rightarrow> import_declaration \<Rightarrow> alias_state" where
  "ImportDeclaration st decl =
     (let st1 = (if source_value decl = ''@angular/core/rxjs-interop''
                 then fold add_destroy_alias (specifiers decl) st
                 else st)
      in if source_value decl = ''rxjs'' \<or> source_value decl = ''rxjs/operators''
         then fold add_take_alias (specifiers decl) st1
         else st1)"

subsection \<open>The chain locator\<close>

definition findPipeCallBeforeSubscribe :: "node option \<Rightarrow> node option" where
  "findPipeCallBeforeSubscribe objectExpr =
     (case objectExpr of
        None \<Rightarrow> None
      | Some e \<Rightarrow>
          if type e = ''CallExpression'' \<and>
             (case callee e of
                None \<Rightarrow> False
              | Some c \<Rightarrow>
                  type c = ''MemberExpression'' \<and>
                  (case property c of
                     None \<Rightarrow> False
                   | Some p \<Rightarrow> name p = Some ''pipe''))
          then Some e
          else None)"

subsection \<open>The operator classifier\<close>

text \<open>The three tests of the callback given to \<^verbatim>\<open>some\<close>, in the order of the source.\<close>

definition direct_call_match :: "string set \<Rightarrow> string set \<Rightarrow> node \<Rightarrow> bool" where
  "direct_call_match destroyAliases takeAliases arg =
     (type arg = ''CallExpression'' \<and>
      (case callee arg of
         None \<Rightarrow> False
       | Some c \<Rightarrow>
           type c = ''Identifier'' \<and>
           (set_has destroyAliases (name c) \<or> set_has takeAliases (name c))))"

definition identifier_name_match :: "string \<Rightarrow> bool" where
  "identifier_name_match n =
     (includes_str n ''destroy'' \<or>
      includes_str n ''Destroy'' \<or>
      includes_str n ''unsubscribe'' \<or>
      includes_str n ''Unsubscribe'' \<or>
      includes_str n ''take'')"

text \<open>
  The repository holds a second copy of the rule, the one with the fixer. Its classifier
  differs in this test alone: it lower-cases the name first
  (\<^verbatim>\<open>const lowerName = arg.name.toLowerCase()\<close>) and looks for three substrings.
\<close>

definition identifier_name_match_lowerName :: "string \<Rightarrow> bool" where
  "identifier_name_match_lowerName n =
     (let lowerName = toLowerCase n
      in includes_str lowerName ''destroy'' \<or>
         includes_str lowerName ''unsubscribe'' \<or>
         includes_str lowerName ''take'')"

definition member_call_match :: "string set \<Rightarrow> string set \<Rightarrow> node \<Rightarrow> bool" where
  "member_call_match destroyAliases takeAliases arg =
     (type arg = ''CallExpression'' \<and>
      (case callee arg of
         None \<Rightarrow> False
       | Some c \<Rightarrow>
           type c = ''MemberExpression'' \<and>
           (case property c of
              None \<Rightarrow> False
            | Some p \<Rightarrow>
                set_has destroyAliases (name p) \<or> set_has takeAliases (name p))))"

definition is_take_operator :: "string set \<Rightarrow> string set \<Rightarrow> node \<Rightarrow> error + bool" where
  "is_take_operator destroyAliases takeAliases arg =
     (if direct_call_match destroyAliases takeAliases arg then Inr True
      else if type arg = ''Identifier'' then
        (case name arg of
           None \<Rightarrow> Inl TypeError
         | Some n \<Rightarrow> Inr (identifier_name_match n))
      else if member_call_match destroyAliases takeAliases arg then Inr True
      else Inr False)"

definition checkForTakeOperatorsInPipe ::
  "node option \<Rightarrow> string set \<Rightarrow> string set \<Rightarrow> error + bool" where
  "checkForTakeOperatorsInPipe pipeCall destroyAliases takeAliases =
     (case pipeCall of
        None \<Rightarrow> Inr False
      | Some p \<Rightarrow>
          (case arguments p of
             None \<Rightarrow> Inr False
           | Some args \<Rightarrow>
               if length args = 0 then Inr False
               else array_some (is_take_operator destroyAliases takeAliases) args))"

definition checkForTakeUntilDestroyedInPipe ::
  "node option \<Rightarrow> string set \<Rightarrow> error + bool" where
  "checkForTakeUntilDestroyedInPipe pipeCall destroyAliases =
     checkForTakeOperatorsInPipe pipeCall destroyAliases {}"

subsection \<open>The subscribe visitor\<close>

text \<open>What \<^verbatim>\<open>context.report\<close> receives.\<close>

record report =
  report_node :: node
  messageId :: string

definition missing_report :: "node \<Rightarrow> report" where
  "missing_report n = \<lparr> report_node = n, messageId = ''missingTakeUntilDestroyed'' \<rparr>"

text \<open>
  The selector of the visitor, \<^verbatim>\<open>CallExpression[callee.property.name="subscribe"]\<close>:
  the linter calls the visitor on the nodes that satisfy it, and on no other.
\<close>

definition subscribe_selector :: "node \<Rightarrow> bool" where
  "subscribe_selector n =
     (type n = ''CallExpression'' \<and>
      (case callee n of
         None \<Rightarrow> False
       | Some c \<Rightarrow>
           (case property c of
              None \<Rightarrow> False
            | Some p \<Rightarrow> name p = Some ''subscribe'')))"

text \<open>
  The visitor returns the reports it made, in order; \<^verbatim>\<open>node.callee.object\<close> throws when
  there is no callee.
\<close>

definition subscribe_visitor :: "alias_state \<Rightarrow> node \<Rightarrow> error + report list" where
  "subscribe_visitor st n =
     (case callee n of
        None \<Rightarrow> Inl TypeError
      | Some c \<Rightarrow>
          (case findPipeCallBeforeSubscribe (object c) of
             None \<Rightarrow> Inr [missing_report n]
           | Some pipeCall \<Rightarrow>
               (case checkForTakeOperatorsInPipe (Some pipeCall)
                       (takeUntilDestroyedAliases st) (rxjsTakeOperatorAliases st) of
                  Inl e \<Rightarrow> Inl e
                | Inr hasTakeOperator \<Rightarrow>
                    if \<not> hasTakeOperator then Inr [missing_report n] else Inr [])))"

subsection \<open>The traversal\<close>

text \<open>
  The linter walks one file and calls the two visitors in document order. A visit is an
  import declaration or a call that the subscribe selector accepts. An exception ends the
  walk.
\<close>

datatype visit = OnImportDeclaration import_declaration | OnSubscribeCall node

fun visit_node :: "alias_state \<Rightarrow> visit \<Rightarrow> error + (alias_state \<times> report list)" where
  "visit_node st (OnImportDeclaration decl) = Inr (ImportDeclaration st decl, [])"
| "visit_node st (OnSubscribeCall n) =
     (case subscribe_visitor st n of
        Inl e \<Rightarrow> Inl e
      | Inr rs \<Rightarrow> Inr (st, rs))"

fun traverse :: "alias_state \<Rightarrow> visit list \<Rightarrow> error + (alias_state \<times> report list)" where
  "traverse st [] = Inr (st, [])"
| "traverse st (v # vs) =
     (case visit_node st v of
        Inl e \<Rightarrow> Inl e
      | Inr (st1, rs1) \<Rightarrow>
          (case traverse st1 vs of
             Inl e \<Rightarrow> Inl e
           | Inr (st2, rs2) \<Rightarrow> Inr (st2, rs1 @ rs2)))"

text \<open>One analysis pass: a fresh \<^verbatim>\<open>create\<close>, then the walk.\<close>

definition lint_file :: "visit list \<Rightarrow> error + (alias_state \<times> report list)" where
  "lint_file vs = traverse create vs"

subsection \<open>Node shapes of the parser\<close>

text \<open>
  The three node kinds the rule looks for, as the parser builds them: an identifier has a
  name, a member access an object and a property, a call a callee and its arguments.
\<close>

definition Identifier :: "string \<Rightarrow> node" where
  "Identifier n = Node ''Identifier'' (Some n) None None None None False"

definition MemberExpression :: "node \<Rightarrow> node \<Rightarrow> node" where
  "MemberExpression obj prop =
     Node ''MemberExpression'' None None (Some obj) (Some prop) None False"


definition CallExpression :: "node \<Rightarrow> node list \<Rightarrow> node" where
  "CallExpression c args = Node ''CallExpression'' None (Some c) None None (Some args) False"

text \<open>\<^verbatim>\<open>this\<close>, standing for any receiver the rule does not look into.\<close>

definition ThisExpression :: node where
  "ThisExpression = Node ''ThisExpression'' None None None None None False"

text \<open>\<^verbatim>\<open>src.pipe(ops)\<close> and \<^verbatim>\<open>recv.subscribe(args)\<close>.\<close>

definition pipe_call :: "node \<Rightarrow> node list \<Rightarrow> node" where
  "pipe_call src ops = CallExpression (MemberExpression src (Identifier ''pipe'')) ops"

definition subscribe_call :: "node \<Rightarrow> node list \<Rightarrow> node" where
  "subscribe_call recv args =
     CallExpression (MemberExpression recv (Identifier ''subscribe'')) args"

text \<open>A named import \<^verbatim>\<open>{ exported as local }\<close>.\<close>

definition ImportSpecifier :: "string \<Rightarrow> string \<Rightarrow> import_specifier" where
  "ImportSpecifier exported loc =
     \<lparr> spec_type = ''ImportSpecifier'', imported = Some (Identifier exported),
       local_name = loc \<rparr>"

text \<open>
  Every identifier the parser builds has a name; this is what the unguarded read
  \<^verbatim>\<open>arg.name.includes\<close> relies on.
\<close>

definition identifier_has_name :: "node \<Rightarrow> bool" where
  "identifier_has_name arg = (type arg = ''Identifier'' \<longrightarrow> name arg \<noteq> None)"

subsection \<open>The words of the specification\<close>

text \<open>The receiver of a call site: the object of the member access that is called.\<close>

definition receiver :: "node \<Rightarrow> node option" where
  "receiver n = (case callee n of None \<Rightarrow> None | Some c \<Rightarrow> object c)"

text \<open>
  A call whose callee is a member access with a property named \<^verbatim>\<open>pipe\<close>, written
  \<^verbatim>\<open>a.pipe(...)\<close> or \<^verbatim>\<open>a[pipe](...)\<close>: the receivers the locator accepts.
\<close>

definition pipe_call_shape :: "node \<Rightarrow> bool" where
  "pipe_call_shape e =
     (type e = ''CallExpression'' \<and>
      (case callee e of
         None \<Rightarrow> False
       | Some c \<Rightarrow>
           type c = ''MemberExpression'' \<and>
           (case property c of
              None \<Rightarrow> False
            | Some p \<Rightarrow> name p = Some ''pipe'')))"

text \<open>
  "Its name, case-insensitively, contains the substring": the name in lower case contains
  the (lower-case) substring.
\<close>

definition contains_ignoring_case :: "string \<Rightarrow> string \<Rightarrow> bool" where
  "contains_ignoring_case n sub = includes_str (toLowerCase n) sub"

text \<open>
  One of the three tests of the classifier holds of the argument, with no order among
  them: what the callback answers on a node of the parser.
\<close>

definition matches_a_rule :: "alias_state \<Rightarrow> node \<Rightarrow> bool" where
  "matches_a_rule st arg =
     (direct_call_match (takeUntilDestroyedAliases st) (rxjsTakeOperatorAliases st) arg \<or>
      member_call_match (takeUntilDestroyedAliases st) (rxjsTakeOperatorAliases st) arg \<or>
      (type arg = ''Identifier'' \<and>
       (case name arg of None \<Rightarrow> False | Some n \<Rightarrow> identifier_name_match n)))"

text \<open>
  "The import binds the exported name \<open>e\<close> to a local name": a named import specifier
  whose imported name is \<open>e\<close>; the local name is \<open>local_name\<close>.
\<close>

definition binds_exported :: "import_specifier \<Rightarrow> string \<Rightarrow> bool" where
  "binds_exported s e =
     (spec_type s = ''ImportSpecifier'' \<and>
      (case imported s of None \<Rightarrow> False | Some i \<Rightarrow> name i = Some e))"

text \<open>"The import binds one of the four canonical bounding-operator names".\<close>

definition binds_take_operator :: "import_specifier \<Rightarrow> bool" where
  "binds_take_operator s = (\<exists>e \<in> rxjsTakeOperators. binds_exported s e)"



text \<open>The arguments of the pipe call of a site come from the parser.\<close>

definition well_formed_site :: "node \<Rightarrow> bool" where
  "well_formed_site site =
     (case receiver site of
        None \<Rightarrow> True
      | Some r \<Rightarrow>
          (case arguments r of
             None \<Rightarrow> True
           | Some args \<Rightarrow> list_all identifier_has_name args))"

text \<open>The arguments of a pipe call; an absent list has no argument.\<close>

definition pipe_arguments :: "node \<Rightarrow> node list" where
  "pipe_arguments r = (case arguments r of None \<Rightarrow> [] | Some args \<Rightarrow> args)"

text \<open>
  The locator accepts no receiver, or it accepts one and the classifier's tests all fail
  on all its arguments: when the visitor reports, on nodes of the parser.
\<close>

definition missing_termination_operator :: "alias_state \<Rightarrow> node \<Rightarrow> bool" where
  "missing_termination_operator st site =
     (case receiver site of
        None \<Rightarrow> True
      | Some r \<Rightarrow>
          \<not> pipe_call_shape r \<or>
          (pipe_call_shape r \<and> \<not> list_ex (matches_a_rule st) (pipe_arguments r)))"


text \<open>
  "Syntactically a call of the form \<^verbatim>\<open><anything>.pipe(...)\<close>": a call whose callee is a
  member access written with a dot, the property being the identifier \<^verbatim>\<open>pipe\<close>.
\<close>

definition dotted_pipe_call :: "node \<Rightarrow> bool" where
  "dotted_pipe_call e =
     (type e = ''CallExpression'' \<and>
      (case callee e of
         None \<Rightarrow> False
       | Some c \<Rightarrow>
           type c = ''MemberExpression'' \<and> \<not> computed c \<and>
           (case property c of
              None \<Rightarrow> False
            | Some p \<Rightarrow> type p = ''Identifier'' \<and> name p = Some ''pipe'')))"

text \<open>
  The three shapes of the specification, each read off an argument: the name of the bare
  identifier that a direct call calls; the property name of the member access that a call
  calls; the name of an argument that is a bare identifier.
\<close>

definition called_identifier :: "node \<Rightarrow> string option" where
  "called_identifier arg =
     (if type arg \<noteq> ''CallExpression'' then None
      else case callee arg of
             None \<Rightarrow> None
           | Some f \<Rightarrow> if type f = ''Identifier'' then name f else None)"

definition called_member_property :: "node \<Rightarrow> string option" where
  "called_member_property arg =
     (if type arg \<noteq> ''CallExpression'' then None
      else case callee arg of
             None \<Rightarrow> None
           | Some m \<Rightarrow>
               if type m \<noteq> ''MemberExpression'' then None
               else (case property m of None \<Rightarrow> None | Some q \<Rightarrow> name q))"

definition bare_identifier :: "node \<Rightarrow> string option" where
  "bare_identifier arg = (if type arg = ''Identifier'' then name arg else None)"

text \<open>
  Rule 1: "a direct call expression whose callee is a bare identifier present in
  \<open>destroyAliases\<close> or \<open>takeAliases\<close>".
\<close>

definition spec_rule_direct_call :: "alias_state \<Rightarrow> node \<Rightarrow> bool" where
  "spec_rule_direct_call st arg =
     (case called_identifier arg of
        None \<Rightarrow> False
      | Some L \<Rightarrow> L \<in> takeUntilDestroyedAliases st \<union> rxjsTakeOperatorAliases st)"

text \<open>
  Rule 2: "a call expression whose callee is a member access whose accessed property name
  is present in \<open>destroyAliases\<close> or \<open>takeAliases\<close>".
\<close>

definition spec_rule_member_call :: "alias_state \<Rightarrow> node \<Rightarrow> bool" where
  "spec_rule_member_call st arg =
     (case called_member_property arg of
        None \<Rightarrow> False
      | Some L \<Rightarrow> L \<in> takeUntilDestroyedAliases st \<union> rxjsTakeOperatorAliases st)"

text \<open>
  Rule 3: "a bare identifier argument (no call) whose name, case-insensitively, contains
  any of the substrings: destroy, unsubscribe, take".
\<close>

definition spec_rule_identifier :: "node \<Rightarrow> bool" where
  "spec_rule_identifier arg =
     (case bare_identifier arg of
        None \<Rightarrow> False
      | Some n \<Rightarrow>
          contains_ignoring_case n ''destroy'' \<or>
          contains_ignoring_case n ''unsubscribe'' \<or>
          contains_ignoring_case n ''take'')"

definition matches_spec_rule :: "alias_state \<Rightarrow> node \<Rightarrow> bool" where
  "matches_spec_rule st arg =
     (spec_rule_direct_call st arg \<or> spec_rule_member_call st arg \<or>
      spec_rule_identifier arg)"


text \<open>
  "The module/export pairing matches": the binding imports \<^verbatim>\<open>takeUntilDestroyed\<close> from
  the interop module, or one of the four bounding operators from \<^verbatim>\<open>rxjs\<close> or
  \<^verbatim>\<open>rxjs/operators\<close>.
\<close>

definition destroy_pairing :: "string \<Rightarrow> import_specifier \<Rightarrow> bool" where
  "destroy_pairing module s =
     (module = ''@angular/core/rxjs-interop'' \<and> binds_exported s ''takeUntilDestroyed'')"

definition take_pairing :: "string \<Rightarrow> import_specifier \<Rightarrow> bool" where
  "take_pairing module s =
     ((module = ''rxjs'' \<or> module = ''rxjs/operators'') \<and> binds_take_operator s)"

section \<open>Helper facts\<close>


lemma findPipe_Some:
  "findPipeCallBeforeSubscribe (Some e) = (if pipe_call_shape e then Some e else None)"
  by (simp add: findPipeCallBeforeSubscribe_def pipe_call_shape_def)

lemma findPipe_None: "findPipeCallBeforeSubscribe None = None"
  by (simp add: findPipeCallBeforeSubscribe_def)

lemma pipe_call_shape_pipe_call [simp]: "pipe_call_shape (pipe_call src ops)"
  by (simp add: pipe_call_shape_def pipe_call_def CallExpression_def MemberExpression_def
      Identifier_def)

lemma arguments_pipe_call [simp]: "arguments (pipe_call src ops) = Some ops"
  by (simp add: pipe_call_def CallExpression_def)

lemma callee_subscribe_call [simp]:
  "callee (subscribe_call recv args) = Some (MemberExpression recv (Identifier ''subscribe''))"
  by (simp add: subscribe_call_def CallExpression_def)

lemma object_MemberExpression [simp]: "object (MemberExpression obj prop) = Some obj"
  by (simp add: MemberExpression_def)

lemma type_Identifier [simp]: "type (Identifier n) = ''Identifier''"
  by (simp add: Identifier_def)

lemma name_Identifier [simp]: "name (Identifier n) = Some n"
  by (simp add: Identifier_def)

lemma is_take_operator_identifier:
  assumes "type arg = ''Identifier''" and "name arg = Some n"
  shows "is_take_operator A B arg = Inr (identifier_name_match n)"
  using assms by (simp add: is_take_operator_def direct_call_match_def)

lemma subscribe_visitor_no_pipe:
  assumes "callee site = Some c"
    and "case receiver site of None \<Rightarrow> True | Some r \<Rightarrow> \<not> pipe_call_shape r"
  shows "subscribe_visitor st site = Inr [missing_report site]"
  using assms
  by (cases "object c") (simp_all add: subscribe_visitor_def receiver_def findPipe_Some
      findPipe_None)

lemma subscribe_visitor_pipe:
  assumes "receiver site = Some p" and "pipe_call_shape p"
  shows "subscribe_visitor st site =
     (case checkForTakeOperatorsInPipe (Some p) (takeUntilDestroyedAliases st)
             (rxjsTakeOperatorAliases st) of
        Inl e \<Rightarrow> Inl e
      | Inr h \<Rightarrow> if h then Inr [] else Inr [missing_report site])"
  using assms
  by (cases "callee site")
    (simp_all add: subscribe_visitor_def receiver_def findPipe_Some split: sum.splits)

lemma checkForTakeOperatorsInPipe_single:
  assumes "arguments p = Some [arg]"
  shows "checkForTakeOperatorsInPipe (Some p) A B = is_take_operator A B arg"
  using assms
  by (simp add: checkForTakeOperatorsInPipe_def split: sum.splits bool.splits)

lemma receiver_subscribe_call [simp]: "receiver (subscribe_call recv args) = Some recv"
  by (simp add: receiver_def)

lemmas node_shapes =
  Identifier_def MemberExpression_def CallExpression_def ThisExpression_def
  pipe_call_def subscribe_call_def

lemma set_has_iff: "set_has S x \<longleftrightarrow> (\<exists>n \<in> S. x = Some n)"
  by (cases x) (auto simp: set_has_def)

lemma add_destroy_alias_eq:
  "add_destroy_alias s st =
     (if binds_exported s ''takeUntilDestroyed''
      then st\<lparr> takeUntilDestroyedAliases := insert (local_name s) (takeUntilDestroyedAliases st) \<rparr>
      else st)"
  by (simp add: add_destroy_alias_def binds_exported_def)

lemma add_take_alias_eq:
  "add_take_alias s st =
     (if binds_take_operator s
      then st\<lparr> rxjsTakeOperatorAliases := insert (local_name s) (rxjsTakeOperatorAliases st) \<rparr>
      else st)"
  by (cases "imported s")
    (auto simp: add_take_alias_def binds_take_operator_def binds_exported_def set_has_iff)

lemma fold_add_destroy_alias:
  "fold add_destroy_alias ss st =
     st\<lparr> takeUntilDestroyedAliases :=
          takeUntilDestroyedAliases st \<union>
          local_name ` {s \<in> set ss. binds_exported s ''takeUntilDestroyed''} \<rparr>"
proof (induction ss arbitrary: st)
  case Nil
  then show ?case by simp
next
  case (Cons s ss)
  have "fold add_destroy_alias (s # ss) st = fold add_destroy_alias ss (add_destroy_alias s st)"
    by simp
  also have "\<dots> = (add_destroy_alias s st)\<lparr> takeUntilDestroyedAliases :=
      takeUntilDestroyedAliases (add_destroy_alias s st) \<union>
      local_name ` {s \<in> set ss. binds_exported s ''takeUntilDestroyed''} \<rparr>"
    by (rule Cons.IH)
  also have "\<dots> = st\<lparr> takeUntilDestroyedAliases :=
      takeUntilDestroyedAliases st \<union>
      local_name ` {x \<in> set (s # ss). binds_exported x ''takeUntilDestroyed''} \<rparr>"
    unfolding add_destroy_alias_eq
    by (cases "binds_exported s ''takeUntilDestroyed''") (auto intro!: alias_state.equality)
  finally show ?case .
qed

lemma fold_add_take_alias:
  "fold add_take_alias ss st =
     st\<lparr> rxjsTakeOperatorAliases :=
          rxjsTakeOperatorAliases st \<union>
          local_name ` {s \<in> set ss. binds_take_operator s} \<rparr>"
proof (induction ss arbitrary: st)
  case Nil
  then show ?case by simp
next
  case (Cons s ss)
  have "fold add_take_alias (s # ss) st = fold add_take_alias ss (add_take_alias s st)"
    by simp
  also have "\<dots> = (add_take_alias s st)\<lparr> rxjsTakeOperatorAliases :=
      rxjsTakeOperatorAliases (add_take_alias s st) \<union>
      local_name ` {s \<in> set ss. binds_take_operator s} \<rparr>"
    by (rule Cons.IH)
  also have "\<dots> = st\<lparr> rxjsTakeOperatorAliases :=
      rxjsTakeOperatorAliases st \<union>
      local_name ` {x \<in> set (s # ss). binds_take_operator x} \<rparr>"
    unfolding add_take_alias_eq
    by (cases "binds_take_operator s") (auto intro!: alias_state.equality)
  finally show ?case .
qed

lemma destroy_aliases_ImportDeclaration:
  "takeUntilDestroyedAliases (ImportDeclaration st d) =
     takeUntilDestroyedAliases st \<union>
     (if source_value d = ''@angular/core/rxjs-interop''
      then local_name ` {s \<in> set (specifiers d). binds_exported s ''takeUntilDestroyed''}
      else {})"
  by (simp add: ImportDeclaration_def Let_def fold_add_destroy_alias fold_add_take_alias)

lemma take_aliases_ImportDeclaration:
  "rxjsTakeOperatorAliases (ImportDeclaration st d) =
     rxjsTakeOperatorAliases st \<union>
     (if source_value d = ''rxjs'' \<or> source_value d = ''rxjs/operators''
      then local_name ` {s \<in> set (specifiers d). binds_take_operator s}
      else {})"
  by (simp add: ImportDeclaration_def Let_def fold_add_destroy_alias fold_add_take_alias)

lemma ImportDeclaration_grows:
  "takeUntilDestroyedAliases st \<subseteq> takeUntilDestroyedAliases (ImportDeclaration st d)"
  "rxjsTakeOperatorAliases st \<subseteq> rxjsTakeOperatorAliases (ImportDeclaration st d)"
  by (simp_all add: destroy_aliases_ImportDeclaration take_aliases_ImportDeclaration)




lemma is_take_operator_well_formed:
  assumes "identifier_has_name arg"
  shows "is_take_operator (takeUntilDestroyedAliases st) (rxjsTakeOperatorAliases st) arg
         = Inr (matches_a_rule st arg)"
proof (cases "type arg = ''Identifier''")
  case True
  then obtain n where n: "name arg = Some n"
    using assms by (auto simp: identifier_has_name_def)
  show ?thesis
    using True n
    by (simp add: is_take_operator_identifier matches_a_rule_def direct_call_match_def
        member_call_match_def)
next
  case False
  then show ?thesis
    by (simp add: is_take_operator_def matches_a_rule_def)
qed

lemma array_some_total:
  assumes "\<And>x. x \<in> set xs \<Longrightarrow> f x = Inr (g x)"
  shows "array_some f xs = Inr (\<exists>x \<in> set xs. g x)"
  using assms by (induction xs) (auto split: bool.splits)


lemma checkForTakeOperatorsInPipe_well_formed:
  assumes "arguments p = Some args" and "list_all identifier_has_name args"
  shows "checkForTakeOperatorsInPipe (Some p) (takeUntilDestroyedAliases st)
           (rxjsTakeOperatorAliases st)
         = Inr (\<exists>a \<in> set args. matches_a_rule st a)"
proof (cases "args = []")
  case True
  then show ?thesis using assms by (simp add: checkForTakeOperatorsInPipe_def)
next
  case False
  have "array_some (is_take_operator (takeUntilDestroyedAliases st)
          (rxjsTakeOperatorAliases st)) args = Inr (\<exists>a \<in> set args. matches_a_rule st a)"
    using assms(2)
    by (intro array_some_total is_take_operator_well_formed) (simp add: list_all_iff)
  then show ?thesis using False assms(1) by (simp add: checkForTakeOperatorsInPipe_def)
qed

lemma checkForTakeOperatorsInPipe_no_arguments:
  "checkForTakeOperatorsInPipe None A B = Inr False"
  "arguments p = None \<Longrightarrow> checkForTakeOperatorsInPipe (Some p) A B = Inr False"
  "arguments p = Some [] \<Longrightarrow> checkForTakeOperatorsInPipe (Some p) A B = Inr False"
  by (simp_all add: checkForTakeOperatorsInPipe_def)

lemma subscribe_selector_callee: "subscribe_selector site \<Longrightarrow> \<exists>c. callee site = Some c"
  by (cases "callee site") (simp_all add: subscribe_selector_def)

lemma subscribe_visitor_well_formed:
  assumes "callee site = Some c" and "well_formed_site site"
  shows "subscribe_visitor st site =
     Inr (if missing_termination_operator st site then [missing_report site] else [])"
proof (cases "receiver site")
  case None
  then show ?thesis
    using subscribe_visitor_no_pipe [OF assms(1), of st]
    by (simp add: missing_termination_operator_def)
next
  case (Some r)
  show ?thesis
  proof (cases "pipe_call_shape r")
    case False
    then show ?thesis
      using Some subscribe_visitor_no_pipe [OF assms(1), of st]
      by (simp add: missing_termination_operator_def)
  next
    case True
    note vis = subscribe_visitor_pipe [OF Some True, of st]
    show ?thesis
    proof (cases "arguments r")
      case None
      then show ?thesis
        using vis Some True
        by (simp add: checkForTakeOperatorsInPipe_no_arguments
            missing_termination_operator_def pipe_arguments_def)
    next
      case (Some args)
      then have "list_all identifier_has_name args"
        using assms(2) \<open>receiver site = Some r\<close> by (simp add: well_formed_site_def)
      then show ?thesis
        using vis Some True \<open>receiver site = Some r\<close>
          checkForTakeOperatorsInPipe_well_formed [OF Some, of st]
        by (simp add: missing_termination_operator_def pipe_arguments_def list_ex_iff)
    qed
  qed
qed

lemma binds_exported_unique: "binds_exported s e \<Longrightarrow> binds_exported s e' \<Longrightarrow> e = e'"
  by (cases "imported s") (simp_all add: binds_exported_def)

lemma ImportDeclaration_frame:
  assumes "source_value d = ''@angular/core/rxjs-interop'' \<Longrightarrow>
      \<forall>s \<in> set (specifiers d). \<not> binds_exported s ''takeUntilDestroyed''"
    and "source_value d = ''rxjs'' \<or> source_value d = ''rxjs/operators'' \<Longrightarrow>
      \<forall>s \<in> set (specifiers d). \<not> binds_take_operator s"
  shows "ImportDeclaration st d = st"
proof (rule alias_state.equality)
  show "takeUntilDestroyedAliases (ImportDeclaration st d) = takeUntilDestroyedAliases st"
    using assms(1) by (auto simp: destroy_aliases_ImportDeclaration)
  show "rxjsTakeOperatorAliases (ImportDeclaration st d) = rxjsTakeOperatorAliases st"
    using assms(2) by (auto simp: take_aliases_ImportDeclaration)
  show "alias_state.more (ImportDeclaration st d) = alias_state.more st"
    by simp
qed

lemma visit_node_grows:
  assumes "visit_node st v = Inr (st', rs)"
  shows "takeUntilDestroyedAliases st \<subseteq> takeUntilDestroyedAliases st'
    \<and> rxjsTakeOperatorAliases st \<subseteq> rxjsTakeOperatorAliases st'"
proof (cases v)
  case (OnImportDeclaration d)
  then show ?thesis using assms ImportDeclaration_grows [of st d] by auto
next
  case (OnSubscribeCall n)
  then show ?thesis using assms by (auto split: sum.splits)
qed

lemma traverse_grows:
  assumes "traverse st vs = Inr (st', rs)"
  shows "takeUntilDestroyedAliases st \<subseteq> takeUntilDestroyedAliases st'
    \<and> rxjsTakeOperatorAliases st \<subseteq> rxjsTakeOperatorAliases st'"
  using assms
proof (induction vs arbitrary: st rs)
  case Nil
  then show ?case by simp
next
  case (Cons v vs)
  from Cons.prems obtain st1 rs1 st2 rs2
    where step: "visit_node st v = Inr (st1, rs1)"
      and rest: "traverse st1 vs = Inr (st2, rs2)" and "st' = st2"
    by (auto split: sum.splits)
  from visit_node_grows [OF step] Cons.IH [of st1 rs2] rest \<open>st' = st2\<close>
  show ?case by auto
qed


lemma dotted_pipe_call_shape: "dotted_pipe_call e \<Longrightarrow> pipe_call_shape e"
  by (auto simp: dotted_pipe_call_def pipe_call_shape_def split: option.splits)








lemma aliases_ImportDeclaration_filter:
  "takeUntilDestroyedAliases (ImportDeclaration st d) =
     takeUntilDestroyedAliases st \<union>
     set (map local_name (filter (destroy_pairing (source_value d)) (specifiers d)))"
  "rxjsTakeOperatorAliases (ImportDeclaration st d) =
     rxjsTakeOperatorAliases st \<union>
     set (map local_name (filter (take_pairing (source_value d)) (specifiers d)))"
  by (auto simp: destroy_aliases_ImportDeclaration take_aliases_ImportDeclaration
      destroy_pairing_def take_pairing_def)

section \<open>Bare identifiers among the pipe arguments\<close>

text \<open>
  C1. The claim: a bare identifier among the pipe arguments counts as a termination
  operator if and only if its name, case-insensitively, contains \<^verbatim>\<open>destroy\<close>,
  \<^verbatim>\<open>unsubscribe\<close> or \<^verbatim>\<open>take\<close>. The classifier follows it on the four names of the
  claim: \<^verbatim>\<open>destroyRef\<close>, \<^verbatim>\<open>unsubscribeAll\<close> and \<^verbatim>\<open>takeHandler\<close> are counted and
  \<^verbatim>\<open>mapValue\<close> is not. It departs from it on \<^verbatim>\<open>DESTROY\<close>: the name contains
  \<^verbatim>\<open>destroy\<close> when case is ignored, so rule 3 of the specification holds of it, and the
  second copy of the rule accepts it; yet the classifier answers false and
  \<^verbatim>\<open>this.pipe(DESTROY).subscribe()\<close> is reported.
\<close>

theorem uppercase_identifier_not_counted:
  "contains_ignoring_case ''DESTROY'' ''destroy''
   \<and> spec_rule_identifier (Identifier ''DESTROY'')
   \<and> identifier_name_match_lowerName ''DESTROY''
   \<and> is_take_operator (takeUntilDestroyedAliases create) (rxjsTakeOperatorAliases create)
       (Identifier ''DESTROY'') = Inr False
   \<and> subscribe_visitor create
       (subscribe_call (pipe_call ThisExpression [Identifier ''DESTROY'']) [])
     = Inr [missing_report
              (subscribe_call (pipe_call ThisExpression [Identifier ''DESTROY'']) [])]
   \<and> is_take_operator (takeUntilDestroyedAliases create) (rxjsTakeOperatorAliases create)
       (Identifier ''destroyRef'') = Inr True
   \<and> is_take_operator (takeUntilDestroyedAliases create) (rxjsTakeOperatorAliases create)
       (Identifier ''unsubscribeAll'') = Inr True
   \<and> is_take_operator (takeUntilDestroyedAliases create) (rxjsTakeOperatorAliases create)
       (Identifier ''takeHandler'') = Inr True
   \<and> is_take_operator (takeUntilDestroyedAliases create) (rxjsTakeOperatorAliases create)
       (Identifier ''mapValue'') = Inr False"
proof -
  have a: "contains_ignoring_case ''DESTROY'' ''destroy''"
    by (simp add: contains_ignoring_case_def toLowerCase_def toLowerCase_char_def)
  then have a': "spec_rule_identifier (Identifier ''DESTROY'')"
    by (simp add: spec_rule_identifier_def bare_identifier_def)
  have a'': "identifier_name_match_lowerName ''DESTROY''"
    using a by (simp add: identifier_name_match_lowerName_def contains_ignoring_case_def)
  have b: "\<not> identifier_name_match ''DESTROY''"
    by (simp add: identifier_name_match_def)
  have c: "is_take_operator (takeUntilDestroyedAliases create) (rxjsTakeOperatorAliases create)
       (Identifier ''DESTROY'') = Inr False"
    using b by (simp add: is_take_operator_identifier)
  have d: "subscribe_visitor create
       (subscribe_call (pipe_call ThisExpression [Identifier ''DESTROY'']) [])
     = Inr [missing_report
              (subscribe_call (pipe_call ThisExpression [Identifier ''DESTROY'']) [])]"
    using c
    by (simp add: subscribe_visitor_pipe [of _ "pipe_call ThisExpression [Identifier ''DESTROY'']"]
        checkForTakeOperatorsInPipe_single [of _ "Identifier ''DESTROY''"])
  have ex: "identifier_name_match ''destroyRef''" "identifier_name_match ''unsubscribeAll''"
    "identifier_name_match ''takeHandler''" "\<not> identifier_name_match ''mapValue''"
    by (simp_all add: identifier_name_match_def)
  show ?thesis
    using a a' a'' c d ex by (simp add: is_take_operator_identifier)
qed

section \<open>Imported aliases\<close>





section \<open>Diagnostics of a subscribe site\<close>




text \<open>
  C5. The claim: a subscribe call site whose pipe call has at least one argument matching
  a rule gets a positive verdict and no diagnostic, whatever arguments stand before it.
  In \<^verbatim>\<open>this.pipe(map(), DESTROY).subscribe()\<close> the last argument matches rule 3 of the
  specification (its name contains \<^verbatim>\<open>destroy\<close> when case is ignored) and the first
  matches no rule; the verdict is negative and the site is reported.
\<close>

theorem uppercase_identifier_after_others_reported:
  "matches_spec_rule create (Identifier ''DESTROY'')
   \<and> \<not> matches_spec_rule create (CallExpression (Identifier ''map'') [])
   \<and> checkForTakeOperatorsInPipe
       (Some (pipe_call ThisExpression
                [CallExpression (Identifier ''map'') [], Identifier ''DESTROY'']))
       (takeUntilDestroyedAliases create) (rxjsTakeOperatorAliases create) = Inr False
   \<and> subscribe_visitor create
       (subscribe_call
          (pipe_call ThisExpression
             [CallExpression (Identifier ''map'') [], Identifier ''DESTROY''])
          [])
     = Inr [missing_report
              (subscribe_call
                 (pipe_call ThisExpression
                    [CallExpression (Identifier ''map'') [], Identifier ''DESTROY''])
                 [])]"
proof -
  let ?args = "[CallExpression (Identifier ''map'') [], Identifier ''DESTROY'']"
  have a: "matches_spec_rule create (Identifier ''DESTROY'')"
    by (simp add: matches_spec_rule_def spec_rule_identifier_def bare_identifier_def
        contains_ignoring_case_def toLowerCase_def toLowerCase_char_def)
  have b: "\<not> matches_spec_rule create (CallExpression (Identifier ''map'') [])"
    by (simp add: matches_spec_rule_def spec_rule_direct_call_def spec_rule_member_call_def
        spec_rule_identifier_def bare_identifier_def called_identifier_def
        called_member_property_def create_def rxjsTakeOperators_def CallExpression_def)
  have m: "is_take_operator (takeUntilDestroyedAliases create) (rxjsTakeOperatorAliases create)
      (CallExpression (Identifier ''map'') []) = Inr False"
    by (simp add: is_take_operator_def direct_call_match_def member_call_match_def set_has_def
        create_def rxjsTakeOperators_def CallExpression_def)
  have d: "is_take_operator (takeUntilDestroyedAliases create) (rxjsTakeOperatorAliases create)
      (Identifier ''DESTROY'') = Inr False"
    by (simp add: is_take_operator_identifier identifier_name_match_def)
  have c: "checkForTakeOperatorsInPipe (Some (pipe_call ThisExpression ?args))
      (takeUntilDestroyedAliases create) (rxjsTakeOperatorAliases create) = Inr False"
    using m d by (simp add: checkForTakeOperatorsInPipe_def)
  have v: "subscribe_visitor create (subscribe_call (pipe_call ThisExpression ?args) [])
      = Inr [missing_report (subscribe_call (pipe_call ThisExpression ?args) [])]"
    using c by (simp add: subscribe_visitor_pipe [of _ "pipe_call ThisExpression ?args"])
  show ?thesis
    using a b c v by simp
qed

text \<open>
  C6. On a pipe call with zero arguments the classifier returns false, without looking at
  any argument, and the subscribe call site yields the diagnostic.
\<close>

theorem empty_pipe_reported:
  assumes "receiver site = Some p" and "pipe_call_shape p" and "arguments p = Some []"
  shows "checkForTakeOperatorsInPipe (Some p) A B = Inr False
     \<and> subscribe_visitor st site = Inr [missing_report site]"
  using subscribe_visitor_pipe [OF assms(1,2), of st] assms(3)
  by (simp add: checkForTakeOperatorsInPipe_no_arguments)

theorem empty_pipe_reported_witness:
  "checkForTakeOperatorsInPipe (Some (pipe_call ThisExpression [])) {''takeUntilDestroyed''}
     rxjsTakeOperators = Inr False
   \<and> subscribe_visitor create (subscribe_call (pipe_call ThisExpression []) [])
     = Inr [missing_report (subscribe_call (pipe_call ThisExpression []) [])]"
  using empty_pipe_reported
    [of "subscribe_call (pipe_call ThisExpression []) []" "pipe_call ThisExpression []"
      "{''takeUntilDestroyed''}" rxjsTakeOperators create]
  by simp

section \<open>Totality of the locator and the classifier\<close>

text \<open>
  C7. The chain locator returns null, and does not fail, on an absent receiver and on a
  receiver whose callee is absent or is not a member access (or has no property). The
  classifier returns false, and does not fail, on an absent pipe call, on an absent or
  empty argument list, and on a call argument whose callee is absent or is neither an
  identifier nor a member access. On nodes of the parser (each identifier among the pipe
  arguments has a name) the classifier always returns a verdict, and the visitor of every
  subscribe call site returns with at most one diagnostic.
\<close>

theorem locator_and_classifier_total:
  "findPipeCallBeforeSubscribe None = None
   \<and> ((case callee e of
          None \<Rightarrow> True
        | Some c \<Rightarrow> type c \<noteq> ''MemberExpression'' \<or> property c = None)
       \<longrightarrow> findPipeCallBeforeSubscribe (Some e) = None)
   \<and> checkForTakeOperatorsInPipe None A B = Inr False
   \<and> (arguments p = None \<or> arguments p = Some []
       \<longrightarrow> checkForTakeOperatorsInPipe (Some p) A B = Inr False)
   \<and> (type arg = ''CallExpression'' \<and>
       (case callee arg of
          None \<Rightarrow> True
        | Some c \<Rightarrow> type c \<noteq> ''Identifier'' \<and>
                    (type c \<noteq> ''MemberExpression'' \<or> property c = None))
       \<longrightarrow> is_take_operator A B arg = Inr False)
   \<and> (list_all identifier_has_name (pipe_arguments q)
       \<longrightarrow> (\<exists>verdict. checkForTakeOperatorsInPipe (Some q) A B = Inr verdict))
   \<and> (subscribe_selector site \<and> well_formed_site site
       \<longrightarrow> (\<exists>reports. subscribe_visitor st site = Inr reports \<and> length reports \<le> 1))"
proof -
  have locator: "findPipeCallBeforeSubscribe (Some e) = None"
    if "case callee e of
          None \<Rightarrow> True
        | Some c \<Rightarrow> type c \<noteq> ''MemberExpression'' \<or> property c = None"
    using that by (auto simp: findPipeCallBeforeSubscribe_def split: option.splits)
  have no_args: "checkForTakeOperatorsInPipe (Some p) A B = Inr False"
    if "arguments p = None \<or> arguments p = Some []"
    using that by (auto simp: checkForTakeOperatorsInPipe_no_arguments)
  have no_callee: "is_take_operator A B arg = Inr False"
    if "type arg = ''CallExpression'' \<and>
       (case callee arg of
          None \<Rightarrow> True
        | Some c \<Rightarrow> type c \<noteq> ''Identifier'' \<and>
                    (type c \<noteq> ''MemberExpression'' \<or> property c = None))"
    using that
    by (auto simp: is_take_operator_def direct_call_match_def member_call_match_def
        split: option.splits)
  have classifier: "\<exists>verdict. checkForTakeOperatorsInPipe (Some q) A B = Inr verdict"
    if wf: "list_all identifier_has_name (pipe_arguments q)"
  proof (cases "arguments q")
    case None
    then have "checkForTakeOperatorsInPipe (Some q) A B = Inr False"
      by (rule checkForTakeOperatorsInPipe_no_arguments)
    then show ?thesis ..
  next
    case (Some args)
    then have "list_all identifier_has_name args"
      using wf by (simp add: pipe_arguments_def)
    from checkForTakeOperatorsInPipe_well_formed [OF Some this,
        of "\<lparr> takeUntilDestroyedAliases = A, rxjsTakeOperatorAliases = B \<rparr>"]
    show ?thesis by simp
  qed
  have visitor: "\<exists>reports. subscribe_visitor st site = Inr reports \<and> length reports \<le> 1"
    if "subscribe_selector site \<and> well_formed_site site"
  proof -
    from that obtain c where "callee site = Some c"
      using subscribe_selector_callee by blast
    from subscribe_visitor_well_formed [OF this, of st] that
    show ?thesis by simp
  qed
  show ?thesis
    using locator no_args no_callee classifier visitor
    by (simp add: findPipe_None checkForTakeOperatorsInPipe_no_arguments)
qed

theorem locator_and_classifier_total_witness:
  "findPipeCallBeforeSubscribe (Some ThisExpression) = None
   \<and> findPipeCallBeforeSubscribe (Some (CallExpression (Identifier ''load'') [])) = None
   \<and> checkForTakeOperatorsInPipe
       (Some (Node ''CallExpression'' None None None None None False)) {} {} = Inr False
   \<and> checkForTakeOperatorsInPipe (Some (pipe_call ThisExpression [])) {} {} = Inr False
   \<and> is_take_operator {} {} (Node ''CallExpression'' None None None None (Some []) False)
     = Inr False
   \<and> (\<exists>verdict. checkForTakeOperatorsInPipe
         (Some (pipe_call ThisExpression [Identifier ''mapValue''])) {} {} = Inr verdict)
   \<and> (\<exists>reports. subscribe_visitor create (subscribe_call ThisExpression []) = Inr reports
         \<and> length reports \<le> 1)"
  using
    locator_and_classifier_total
      [of ThisExpression "{}" "{}" "Node ''CallExpression'' None None None None None False"
        "Node ''CallExpression'' None None None None (Some []) False"
        "pipe_call ThisExpression [Identifier ''mapValue'']"
        "subscribe_call ThisExpression []" create]
    locator_and_classifier_total
      [of "CallExpression (Identifier ''load'') []" "{}" "{}" "pipe_call ThisExpression []"
        "Node ''CallExpression'' None None None None (Some []) False"
        "pipe_call ThisExpression [Identifier ''mapValue'']"
        "subscribe_call ThisExpression []" create]
  by (simp add: subscribe_selector_def well_formed_site_def pipe_arguments_def
      identifier_has_name_def receiver_def node_shapes)

section \<open>The alias sets over a pass\<close>

text \<open>
  C8. A pass starts with the destroy set \<^verbatim>\<open>{takeUntilDestroyed}\<close> and the take set
  \<^verbatim>\<open>{takeUntil, takeWhile, take, takeLast}\<close>. Observing an import only adds members;
  so does every visit (a subscribe site leaves the sets as they are) and every walk of a
  file, so the seed members are there at the end of every pass. A fresh pass starts
  from exactly the seed members.
\<close>

theorem alias_sets_append_only:
  "takeUntilDestroyedAliases create = {''takeUntilDestroyed''}
   \<and> rxjsTakeOperatorAliases create = {''takeUntil'', ''takeWhile'', ''take'', ''takeLast''}
   \<and> takeUntilDestroyedAliases st \<subseteq> takeUntilDestroyedAliases (ImportDeclaration st d)
   \<and> rxjsTakeOperatorAliases st \<subseteq> rxjsTakeOperatorAliases (ImportDeclaration st d)
   \<and> (visit_node st (OnSubscribeCall n) = Inr (st1, rs1) \<longrightarrow> st1 = st)
   \<and> (visit_node st v = Inr (st2, rs2) \<longrightarrow>
        takeUntilDestroyedAliases st \<subseteq> takeUntilDestroyedAliases st2
        \<and> rxjsTakeOperatorAliases st \<subseteq> rxjsTakeOperatorAliases st2)
   \<and> (traverse st vs = Inr (st3, rs3) \<longrightarrow>
        takeUntilDestroyedAliases st \<subseteq> takeUntilDestroyedAliases st3
        \<and> rxjsTakeOperatorAliases st \<subseteq> rxjsTakeOperatorAliases st3)
   \<and> (lint_file ws = Inr (st4, rs4) \<longrightarrow>
        {''takeUntilDestroyed''} \<subseteq> takeUntilDestroyedAliases st4
        \<and> {''takeUntil'', ''takeWhile'', ''take'', ''takeLast''}
            \<subseteq> rxjsTakeOperatorAliases st4)
   \<and> lint_file [] = Inr (create, [])"
proof -
  have seeds: "takeUntilDestroyedAliases create = {''takeUntilDestroyed''}"
    "rxjsTakeOperatorAliases create = {''takeUntil'', ''takeWhile'', ''take'', ''takeLast''}"
    by (simp_all add: create_def rxjsTakeOperators_def)
  have site: "st1 = st" if "visit_node st (OnSubscribeCall n) = Inr (st1, rs1)"
    using that by (auto split: sum.splits)
  have pass: "{''takeUntilDestroyed''} \<subseteq> takeUntilDestroyedAliases st4
        \<and> {''takeUntil'', ''takeWhile'', ''take'', ''takeLast''}
            \<subseteq> rxjsTakeOperatorAliases st4"
    if "lint_file ws = Inr (st4, rs4)"
    using traverse_grows [of create ws st4 rs4] that seeds by (simp add: lint_file_def)
  show ?thesis
    using seeds site pass ImportDeclaration_grows [of st d]
      visit_node_grows [of st v st2 rs2] traverse_grows [of st vs st3 rs3]
    by (simp add: lint_file_def)
qed

theorem alias_sets_append_only_witness:
  "lint_file
     [OnImportDeclaration \<lparr> source_value = ''rxjs'',
                            specifiers = [ImportSpecifier ''take'' ''first''] \<rparr>,
      OnSubscribeCall (subscribe_call ThisExpression [])]
   = Inr (\<lparr> takeUntilDestroyedAliases = {''takeUntilDestroyed''},
            rxjsTakeOperatorAliases =
              {''first'', ''takeUntil'', ''takeWhile'', ''take'', ''takeLast''} \<rparr>,
          [missing_report (subscribe_call ThisExpression [])])
   \<and> {''takeUntil'', ''takeWhile'', ''take'', ''takeLast''}
       \<subseteq> {''first'', ''takeUntil'', ''takeWhile'', ''take'', ''takeLast''}"
proof -
  let ?d = "\<lparr> source_value = ''rxjs'', specifiers = [ImportSpecifier ''take'' ''first''] \<rparr>"
  let ?site = "subscribe_call ThisExpression []"
  let ?end = "\<lparr> takeUntilDestroyedAliases = {''takeUntilDestroyed''},
            rxjsTakeOperatorAliases =
              {''first'', ''takeUntil'', ''takeWhile'', ''take'', ''takeLast''} \<rparr>"
  have imp: "ImportDeclaration create ?d = ?end"
    by (simp add: ImportDeclaration_def add_take_alias_def ImportSpecifier_def set_has_def
        create_def rxjsTakeOperators_def)
  have "callee ?site = Some (MemberExpression ThisExpression (Identifier ''subscribe''))"
    by simp
  from subscribe_visitor_no_pipe [OF this, of ?end]
  have sub: "subscribe_visitor ?end ?site = Inr [missing_report ?site]"
    by (simp add: pipe_call_shape_def ThisExpression_def)
  have run: "lint_file [OnImportDeclaration ?d, OnSubscribeCall ?site]
      = Inr (?end, [missing_report ?site])"
    by (simp add: lint_file_def imp sub)
  from alias_sets_append_only
    [of create ?d ?site ?end "[missing_report ?site]" "OnSubscribeCall ?site" ?end
      "[missing_report ?site]" "[OnImportDeclaration ?d, OnSubscribeCall ?site]" ?end
      "[missing_report ?site]" "[OnImportDeclaration ?d, OnSubscribeCall ?site]" ?end
      "[missing_report ?site]"] run
  show ?thesis by simp
qed

section \<open>Imports that register nothing\<close>

text \<open>
  C10. After an import declaration is observed, each alias set holds what it held before
  and the local names of the bindings whose module and exported name pair up, and nothing
  else; so a declaration with no such binding leaves the state as it is. A binding does
  not pair up when it imports \<^verbatim>\<open>takeUntilDestroyed\<close> from \<^verbatim>\<open>rxjs\<close> or
  \<^verbatim>\<open>rxjs/operators\<close>, when it imports \<^verbatim>\<open>takeUntil\<close>, \<^verbatim>\<open>takeWhile\<close>, \<^verbatim>\<open>take\<close> or \<^verbatim>\<open>takeLast\<close>
  from \<^verbatim>\<open>@angular/core/rxjs-interop\<close>, when the module is none of the three, or when the
  specifier is not a named \<^verbatim>\<open>ImportSpecifier\<close>.
\<close>

theorem unmatched_binding_registers_nothing:
  "takeUntilDestroyedAliases (ImportDeclaration st d) =
     takeUntilDestroyedAliases st \<union>
     set (map local_name (filter (destroy_pairing (source_value d)) (specifiers d)))
   \<and> rxjsTakeOperatorAliases (ImportDeclaration st d) =
       rxjsTakeOperatorAliases st \<union>
       set (map local_name (filter (take_pairing (source_value d)) (specifiers d)))
   \<and> ((\<forall>s \<in> set (specifiers d).
          \<not> destroy_pairing (source_value d) s \<and> \<not> take_pairing (source_value d) s)
       \<longrightarrow> ImportDeclaration st d = st)
   \<and> (((module = ''rxjs'' \<or> module = ''rxjs/operators'') \<and>
         binds_exported s ''takeUntilDestroyed'')
        \<or> (module = ''@angular/core/rxjs-interop'' \<and> binds_take_operator s)
        \<or> module \<notin> {''@angular/core/rxjs-interop'', ''rxjs'', ''rxjs/operators''}
        \<or> spec_type s \<noteq> ''ImportSpecifier''
       \<longrightarrow> \<not> destroy_pairing module s \<and> \<not> take_pairing module s)"
proof -
  have not_take: "\<not> binds_take_operator x" if "binds_exported x ''takeUntilDestroyed''" for x
    using that binds_exported_unique [of x "''takeUntilDestroyed''"]
    by (auto simp: binds_take_operator_def rxjsTakeOperators_def)
  have frame: "ImportDeclaration st d = st"
    if "\<forall>s \<in> set (specifiers d).
          \<not> destroy_pairing (source_value d) s \<and> \<not> take_pairing (source_value d) s"
    using that
    by (intro ImportDeclaration_frame) (auto simp: destroy_pairing_def take_pairing_def)
  have kinds: "\<not> destroy_pairing module s \<and> \<not> take_pairing module s"
    if "((module = ''rxjs'' \<or> module = ''rxjs/operators'') \<and>
         binds_exported s ''takeUntilDestroyed'')
        \<or> (module = ''@angular/core/rxjs-interop'' \<and> binds_take_operator s)
        \<or> module \<notin> {''@angular/core/rxjs-interop'', ''rxjs'', ''rxjs/operators''}
        \<or> spec_type s \<noteq> ''ImportSpecifier''"
    using that not_take [of s]
    by (auto simp: destroy_pairing_def take_pairing_def binds_exported_def
        binds_take_operator_def)
  show ?thesis
    using frame kinds aliases_ImportDeclaration_filter [of st d] by blast
qed

theorem unmatched_binding_registers_nothing_witness:
  "ImportDeclaration create
     \<lparr> source_value = ''rxjs'',
       specifiers = [\<lparr> spec_type = ''ImportDefaultSpecifier'', imported = None,
                       local_name = ''take'' \<rparr>,
                     ImportSpecifier ''map'' ''m'',
                     ImportSpecifier ''takeUntilDestroyed'' ''tud''] \<rparr>
   = create
   \<and> rxjsTakeOperatorAliases
       (ImportDeclaration create
          \<lparr> source_value = ''rxjs'',
            specifiers = [ImportSpecifier ''map'' ''m'',
                          ImportSpecifier ''takeUntilDestroyed'' ''tud'',
                          ImportSpecifier ''take'' ''t''] \<rparr>)
     = {''t'', ''takeUntil'', ''takeWhile'', ''take'', ''takeLast''}
   \<and> takeUntilDestroyedAliases
       (ImportDeclaration create
          \<lparr> source_value = ''rxjs'',
            specifiers = [ImportSpecifier ''map'' ''m'',
                          ImportSpecifier ''takeUntilDestroyed'' ''tud'',
                          ImportSpecifier ''take'' ''t''] \<rparr>)
     = {''takeUntilDestroyed''}"
  using
    unmatched_binding_registers_nothing
      [of create
        "\<lparr> source_value = ''rxjs'',
           specifiers = [\<lparr> spec_type = ''ImportDefaultSpecifier'', imported = None,
                           local_name = ''take'' \<rparr>,
                         ImportSpecifier ''map'' ''m'',
                         ImportSpecifier ''takeUntilDestroyed'' ''tud''] \<rparr>"]
    unmatched_binding_registers_nothing
      [of create
        "\<lparr> source_value = ''rxjs'',
           specifiers = [ImportSpecifier ''map'' ''m'',
                         ImportSpecifier ''takeUntilDestroyed'' ''tud'',
                         ImportSpecifier ''take'' ''t''] \<rparr>"]
  by (simp add: destroy_pairing_def take_pairing_def ImportSpecifier_def binds_exported_def
      binds_take_operator_def rxjsTakeOperators_def create_def)

section \<open>The legacy entry point\<close>

text \<open>
  C9. On every pipe call node (or none) and every alias set, the legacy function
  \<^verbatim>\<open>checkForTakeUntilDestroyedInPipe\<close> returns what \<^verbatim>\<open>checkForTakeOperatorsInPipe\<close>
  returns when it is given the same alias set and an empty set of take aliases.
\<close>

theorem legacy_check_is_check_with_empty_take_set:
  "checkForTakeUntilDestroyedInPipe pipeCall A = checkForTakeOperatorsInPipe pipeCall A {}"
  by (simp add: checkForTakeUntilDestroyedInPipe_def)

end
